theory Spec2Isabelle
  imports Complex_Main "HOL-Library.Word" "HOL-Library.Sublist"
begin

section \<open>JavaScript strings\<close>

text \<open>
  A JavaScript string is a sequence of 16-bit code units. The keyword list of
  \<^verbatim>\<open>onmessage\<close> holds Chinese words, so the code units are kept as they are:
  \<^verbatim>\<open>'danger'\<close> is six units, the one-character keyword U+505C is one.
\<close>

type_synonym jsstring = "16 word list"

definition ascii :: "string \<Rightarrow> jsstring" where
  "ascii cs = map of_char cs"

text \<open>
  \<^verbatim>\<open>String.prototype.toLowerCase\<close>, on the code units A to Z. Every other unit is
  left as it is, which is what the built-in does on digits, punctuation and CJK text; the
  cased letters outside ASCII are not modelled. The keywords of the list are ASCII and
  CJK words.
\<close>

definition lower_unit :: "16 word \<Rightarrow> 16 word" where
  "lower_unit c = (if 0x41 \<le> c \<and> c \<le> 0x5A then c + 0x20 else c)"

definition toLowerCase :: "jsstring \<Rightarrow> jsstring" where
  "toLowerCase s = map lower_unit s"

text \<open>\<^verbatim>\<open>s.includes(k)\<close>: \<open>k\<close> occurs in \<open>s\<close> as a contiguous run of units.\<close>

definition str_includes :: "jsstring \<Rightarrow> jsstring \<Rightarrow> bool" where
  "str_includes s k = sublist k s"

text \<open>\<^verbatim>\<open>xs.slice(-n)\<close>: the last \<open>n\<close> elements, all of them when there are fewer.\<close>

definition slice_last :: "nat \<Rightarrow> 'a list \<Rightarrow> 'a list" where
  "slice_last n xs = drop (length xs - n) xs"

section \<open>types.ts\<close>

datatype AppStatus = IDLE | CONNECTING | ACTIVE | ERROR

datatype role = user | assistant

record TranscriptionEntry =
  role :: role
  text_of :: jsstring

section \<open>Messages of the remote session\<close>

text \<open>
  The handler reads five optional fields of a message, each through optional chaining.
  A transcription is an object whose \<^verbatim>\<open>text\<close> may be absent; the audio payload sits
  at \<^verbatim>\<open>serverContent?.modelTurn?.parts?.[0]?.inlineData?.data\<close>.
\<close>

record transcription =
  fragment_text :: "jsstring option"

record blob =
  data :: "jsstring option"

record part =
  inlineData :: "blob option"

record content =
  parts :: "part list option"

record server_content =
  inputTranscription :: "transcription option"
  outputTranscription :: "transcription option"
  turnComplete :: bool
  modelTurn :: "content option"
  interrupted :: bool

record message =
  serverContent :: "server_content option"

definition msg_inputTranscription :: "message \<Rightarrow> transcription option" where
  "msg_inputTranscription m = Option.bind (serverContent m) inputTranscription"

definition msg_outputTranscription :: "message \<Rightarrow> transcription option" where
  "msg_outputTranscription m = Option.bind (serverContent m) outputTranscription"

definition msg_turnComplete :: "message \<Rightarrow> bool" where
  "msg_turnComplete m = (case serverContent m of None \<Rightarrow> False | Some sc \<Rightarrow> turnComplete sc)"

definition msg_interrupted :: "message \<Rightarrow> bool" where
  "msg_interrupted m = (case serverContent m of None \<Rightarrow> False | Some sc \<Rightarrow> interrupted sc)"

definition first_part :: "part list \<Rightarrow> part option" where
  "first_part ps = (case ps of [] \<Rightarrow> None | p # _ \<Rightarrow> Some p)"

definition msg_audioData :: "message \<Rightarrow> jsstring option" where
  "msg_audioData m =
     Option.bind (serverContent m) (\<lambda>sc.
     Option.bind (modelTurn sc) (\<lambda>mt.
     Option.bind (parts mt) (\<lambda>ps.
     Option.bind (first_part ps) (\<lambda>p.
     Option.bind (inlineData p) data))))"

section \<open>State of the component and of the browser around it\<close>

text \<open>
  A source node is an object of the output audio context: its identity, the time
  \<^verbatim>\<open>start\<close> was called with, and the duration of its buffer. Times of the output
  clock are in seconds. They are doubles, held here as the rationals they stand for:
  comparing two of them and taking the larger is exact, adding two of them is not, so the
  addition of doubles is a parameter of the handler, \<open>fadd\<close>.
\<close>

record source_node =
  node_id :: nat
  start_when :: rat
  buffer_duration :: rat

text \<open>
  The first ten fields are the React state and the refs of \<^verbatim>\<open>App\<close>. The others are
  the part of the browser the handlers act on: the interval timers that are running, the
  last timer handle given out, the due times (in milliseconds) of the pending
  \<^verbatim>\<open>setTimeout\<close> callbacks, the millisecond clock, the nodes \<^verbatim>\<open>start\<close> was called on,
  in order, the identities of the nodes \<^verbatim>\<open>stop\<close> was called on, in order, and the
  number of nodes created. The audio contexts, the camera stream and the microphone
  pipeline hold nothing that the handlers below read back, and are left out.
\<close>

record app_state =
  status :: AppStatus
  transcriptions :: "TranscriptionEntry list"
  error :: "jsstring option"
  safetyAlert :: bool
  sessionRef :: "nat option"
  frameIntervalRef :: "nat option"
  nextStartTimeRef :: rat
  sourcesRef :: "source_node list"
  currentInputTransRef :: jsstring
  currentOutputTransRef :: jsstring
  intervals :: "nat set"
  timerSeq :: nat
  timeouts :: "nat list"
  nowMs :: nat
  started :: "source_node list"
  stopped :: "nat list"
  nodeSeq :: nat

definition initial_state :: app_state where
  "initial_state =
     \<lparr>status = IDLE, transcriptions = [], error = None, safetyAlert = False,
      sessionRef = None, frameIntervalRef = None, nextStartTimeRef = 0, sourcesRef = [],
      currentInputTransRef = [], currentOutputTransRef = [],
      intervals = {}, timerSeq = 0, timeouts = [], nowMs = 0,
      started = [], stopped = [], nodeSeq = 0\<rparr>"

section \<open>stopAll\<close>

text \<open>
  \<^verbatim>\<open>if (frameIntervalRef.current)\<close>: the ref holds null or a timer handle, and a
  number is truthy when it is not zero.
\<close>

definition clear_frame_interval :: "app_state \<Rightarrow> app_state" where
  "clear_frame_interval s =
     (case frameIntervalRef s of
        None \<Rightarrow> s
      | Some h \<Rightarrow>
          if h \<noteq> 0 then s\<lparr>intervals := intervals s - {h}, frameIntervalRef := None\<rparr>
          else s)"

definition drop_session :: "app_state \<Rightarrow> app_state" where
  "drop_session s = (if sessionRef s \<noteq> None then s\<lparr>sessionRef := None\<rparr> else s)"

text \<open>
  \<^verbatim>\<open>sourcesRef.current.forEach(s => s.stop()); sourcesRef.current.clear()\<close>: the
  set is walked in insertion order.
\<close>

definition stop_sources :: "app_state \<Rightarrow> app_state" where
  "stop_sources s = s\<lparr>stopped := stopped s @ map node_id (sourcesRef s), sourcesRef := []\<rparr>"

definition stopAll :: "app_state \<Rightarrow> app_state" where
  "stopAll s =
     (let s1 = clear_frame_interval s;
          s2 = drop_session s1;
          s3 = stop_sources s2
      in s3\<lparr>status := IDLE, safetyAlert := False\<rparr>)"

section \<open>onmessage\<close>

text \<open>
  The handler is five blocks in a row, each guarded by one field of the message. It is
  run here as one step: the blocks of one message are not interleaved with another
  message's, although the audio block waits for the decoder. The state setters of React
  take effect at once.
\<close>

text \<open>
  \<^verbatim>\<open>acc += text\<close>: concatenation turns an absent \<^verbatim>\<open>text\<close> into the word
  ``undefined''.
\<close>

definition js_string :: "jsstring option \<Rightarrow> jsstring" where
  "js_string t = (case t of None \<Rightarrow> ascii ''undefined'' | Some x \<Rightarrow> x)"

definition onmessage_input :: "message \<Rightarrow> app_state \<Rightarrow> app_state" where
  "onmessage_input m s =
     (case msg_inputTranscription m of
        None \<Rightarrow> s
      | Some tr \<Rightarrow>
          s\<lparr>currentInputTransRef := currentInputTransRef s @ js_string (fragment_text tr)\<rparr>)"

definition dangerKeywords :: "jsstring list" where
  "dangerKeywords =
     [[0x5371, 0x9669], [0x6CE8, 0x610F], [0x8B66, 0x544A], [0x505C],
      ascii ''danger'', ascii ''warning'', ascii ''stop'', ascii ''caution'',
      [0x7D27, 0x6025, 0x8B66, 0x544A]]"

definition mentions_danger :: "jsstring \<Rightarrow> bool" where
  "mentions_danger t = list_ex (\<lambda>k. str_includes (toLowerCase t) k) dangerKeywords"

text \<open>
  \<^verbatim>\<open>setSafetyAlert(true); setTimeout(() => setSafetyAlert(false), 3000)\<close>: the
  callback is queued with the time it is due at.
\<close>

definition raise_alert :: "app_state \<Rightarrow> app_state" where
  "raise_alert s = s\<lparr>safetyAlert := True, timeouts := timeouts s @ [nowMs s + 3000]\<rparr>"

text \<open>
  The output block appends the text and then calls \<^verbatim>\<open>text.toLowerCase()\<close>. On an
  absent text that call throws a TypeError: the handler ends there, the blocks after it
  do not run, and what was written before stays written. A result is the state the
  handler returned with, or the error with the state it left behind.
\<close>

datatype js_error = TypeError

type_synonym outcome = "(js_error \<times> app_state) + app_state"

definition onmessage_output :: "message \<Rightarrow> app_state \<Rightarrow> outcome" where
  "onmessage_output m s =
     (case msg_outputTranscription m of
        None \<Rightarrow> Inr s
      | Some tr \<Rightarrow>
          (let s1 = s\<lparr>currentOutputTransRef :=
                       currentOutputTransRef s @ js_string (fragment_text tr)\<rparr>
           in case fragment_text tr of
                None \<Rightarrow> Inl (TypeError, s1)
              | Some t \<Rightarrow> Inr (if mentions_danger t then raise_alert s1 else s1)))"

definition onmessage_turn :: "message \<Rightarrow> app_state \<Rightarrow> app_state" where
  "onmessage_turn m s =
     (if msg_turnComplete m
      then (let userText = currentInputTransRef s;
                assistantText = currentOutputTransRef s
            in s\<lparr>transcriptions :=
                    slice_last 10 (transcriptions s @
                      [\<lparr>role = user, text_of = userText\<rparr>,
                       \<lparr>role = assistant, text_of = assistantText\<rparr>]),
                  currentInputTransRef := [],
                  currentOutputTransRef := []\<rparr>)
      else s)"

text \<open>
  The audio block. \<^verbatim>\<open>decodeAudioData\<close> and \<^verbatim>\<open>decodeBase64\<close> belong to a module
  outside these sources, so the duration of the buffer decoded from a payload is the
  parameter \<open>dur\<close>; \<open>currentTime\<close> is the reading of the output clock, and
  \<^verbatim>\<open>nextStartTimeRef.current += buffer.duration\<close> is the addition of doubles
  \<open>fadd\<close>. An empty payload is falsy and skips the block.
\<close>

definition onmessage_audio ::
  "(rat \<Rightarrow> rat \<Rightarrow> rat) \<Rightarrow> (jsstring \<Rightarrow> rat) \<Rightarrow> rat \<Rightarrow> message \<Rightarrow> app_state \<Rightarrow> app_state" where
  "onmessage_audio fadd dur currentTime m s =
     (case msg_audioData m of
        None \<Rightarrow> s
      | Some audioData \<Rightarrow>
          if audioData = [] then s
          else (let startAt = max (nextStartTimeRef s) currentTime;
                    sourceNode = \<lparr>node_id = nodeSeq s, start_when = startAt,
                                  buffer_duration = dur audioData\<rparr>
                in s\<lparr>nextStartTimeRef := fadd startAt (dur audioData),
                      started := started s @ [sourceNode],
                      sourcesRef := sourcesRef s @ [sourceNode],
                      nodeSeq := Suc (nodeSeq s)\<rparr>))"

definition onmessage_interrupted :: "message \<Rightarrow> app_state \<Rightarrow> app_state" where
  "onmessage_interrupted m s =
     (if msg_interrupted m then (stop_sources s)\<lparr>nextStartTimeRef := 0\<rparr> else s)"

definition onmessage ::
  "(rat \<Rightarrow> rat \<Rightarrow> rat) \<Rightarrow> (jsstring \<Rightarrow> rat) \<Rightarrow> rat \<Rightarrow> message \<Rightarrow> app_state \<Rightarrow> outcome" where
  "onmessage fadd dur currentTime m s =
     (case onmessage_output m (onmessage_input m s) of
        Inl e \<Rightarrow> Inl e
      | Inr s2 \<Rightarrow>
          Inr (onmessage_interrupted m
                (onmessage_audio fadd dur currentTime m
                  (onmessage_turn m s2))))"

text \<open>The state of the component once the handler has returned or thrown.\<close>

definition state_after :: "outcome \<Rightarrow> app_state" where
  "state_after r = (case r of Inl (e, s) \<Rightarrow> s | Inr s \<Rightarrow> s)"

section \<open>The other callbacks\<close>

text \<open>
  \<^verbatim>\<open>onopen\<close> sets the status and starts the frame timer; the browser gives out a new
  handle, greater than zero.
\<close>

definition onopen :: "app_state \<Rightarrow> app_state" where
  "onopen s =
     (let h = Suc (timerSeq s)
      in s\<lparr>status := ACTIVE, frameIntervalRef := Some h,
            intervals := insert h (intervals s), timerSeq := h\<rparr>)"

definition onerror :: "app_state \<Rightarrow> app_state" where
  "onerror s = stopAll (s\<lparr>error := Some (ascii ''Connection error. Please try again.'')\<rparr>)"

definition onclose :: "app_state \<Rightarrow> app_state" where
  "onclose s = stopAll s"

text \<open>
  \<^verbatim>\<open>startSession\<close> runs up to its first \<^verbatim>\<open>await\<close>, and later either reaches the
  assignment of the session or lands in its \<^verbatim>\<open>catch\<close> with the error's message
  (absent, or a string).
\<close>

definition startSession_begin :: "app_state \<Rightarrow> app_state" where
  "startSession_begin s = s\<lparr>status := CONNECTING, error := None\<rparr>"

definition startSession_resolved :: "nat \<Rightarrow> app_state \<Rightarrow> app_state" where
  "startSession_resolved session s = s\<lparr>sessionRef := Some session\<rparr>"

definition error_text :: "jsstring option \<Rightarrow> jsstring" where
  "error_text msg =
     (case msg of
        None \<Rightarrow> ascii ''Failed to start. Check permissions.''
      | Some t \<Rightarrow> if t = [] then ascii ''Failed to start. Check permissions.'' else t)"

definition startSession_catch :: "jsstring option \<Rightarrow> app_state \<Rightarrow> app_state" where
  "startSession_catch msg s = s\<lparr>error := Some (error_text msg), status := IDLE\<rparr>"

text \<open>The listener of a node's \<^verbatim>\<open>ended\<close> event deletes the node from the set.\<close>

definition source_ended :: "nat \<Rightarrow> app_state \<Rightarrow> app_state" where
  "source_ended n s = s\<lparr>sourcesRef := filter (\<lambda>x. node_id x \<noteq> n) (sourcesRef s)\<rparr>"

text \<open>
  Time passing: the clock moves on by \<open>dt\<close> milliseconds and every queued callback that
  is due by then runs. Each of them is \<^verbatim>\<open>setSafetyAlert(false)\<close>.
\<close>

definition elapse :: "nat \<Rightarrow> app_state \<Rightarrow> app_state" where
  "elapse dt s =
     (let t = nowMs s + dt
      in s\<lparr>nowMs := t,
            timeouts := filter (\<lambda>d. t < d) (timeouts s),
            safetyAlert := (if list_ex (\<lambda>d. d \<le> t) (timeouts s) then False else safetyAlert s)\<rparr>)"

section \<open>Runs\<close>

datatype event =
    StartSession
  | StartResolved nat
  | StartFailed "jsstring option"
  | OnOpen
  | OnMessage rat message
  | OnError
  | OnClose
  | StopAll
  | SourceEnded nat
  | Elapse nat

fun step ::
  "(rat \<Rightarrow> rat \<Rightarrow> rat) \<Rightarrow> (jsstring \<Rightarrow> rat) \<Rightarrow> event \<Rightarrow> app_state \<Rightarrow> app_state" where
  "step fadd dur StartSession s = startSession_begin s"
| "step fadd dur (StartResolved n) s = startSession_resolved n s"
| "step fadd dur (StartFailed msg) s = startSession_catch msg s"
| "step fadd dur OnOpen s = onopen s"
| "step fadd dur (OnMessage currentTime m) s = state_after (onmessage fadd dur currentTime m s)"
| "step fadd dur OnError s = onerror s"
| "step fadd dur OnClose s = onclose s"
| "step fadd dur StopAll s = stopAll s"
| "step fadd dur (SourceEnded n) s = source_ended n s"
| "step fadd dur (Elapse dt) s = elapse dt s"

fun run ::
  "(rat \<Rightarrow> rat \<Rightarrow> rat) \<Rightarrow> (jsstring \<Rightarrow> rat) \<Rightarrow> event list \<Rightarrow> app_state \<Rightarrow> app_state" where
  "run fadd dur [] s = s"
| "run fadd dur (e # es) s = run fadd dur es (step fadd dur e s)"

section \<open>Notions the properties are stated with\<close>

text \<open>
  Playback without overlap, in the order of the \<^verbatim>\<open>start\<close> calls: every node begins
  no earlier than the node before it ends, the end being the sum the handler computes,
  which is the cursor it stores.
\<close>

fun non_overlapping :: "(rat \<Rightarrow> rat \<Rightarrow> rat) \<Rightarrow> source_node list \<Rightarrow> bool" where
  "non_overlapping fadd (a # b # xs) =
     (fadd (start_when a) (buffer_duration a) \<le> start_when b \<and> non_overlapping fadd (b # xs))"
| "non_overlapping fadd xs = True"

text \<open>
  What is asked of the addition of doubles: adding a duration that is not negative does
  not go below the first argument. Rounding to nearest does that.
\<close>

definition fadd_grows :: "(rat \<Rightarrow> rat \<Rightarrow> rat) \<Rightarrow> bool" where
  "fadd_grows fadd \<longleftrightarrow> (\<forall>x d. 0 \<le> d \<longrightarrow> x \<le> fadd x d)"

text \<open>An event that carries no interruption marker.\<close>

fun uninterrupted :: "event \<Rightarrow> bool" where
  "uninterrupted (OnMessage t m) = (\<not> msg_interrupted m)"
| "uninterrupted e = True"

text \<open>The milliseconds that pass during a run.\<close>

fun elapsed :: "event list \<Rightarrow> nat" where
  "elapsed [] = 0"
| "elapsed (Elapse dt # es) = dt + elapsed es"
| "elapsed (e # es) = elapsed es"

text \<open>An event that does not run \<^verbatim>\<open>stopAll\<close>.\<close>

fun no_stop :: "event \<Rightarrow> bool" where
  "no_stop OnError = False"
| "no_stop OnClose = False"
| "no_stop StopAll = False"
| "no_stop e = True"

text \<open>
  The nodes started from position \<open>k\<close> on play without overlap and all end by the
  cursor.
\<close>

definition scheduled_from :: "(rat \<Rightarrow> rat \<Rightarrow> rat) \<Rightarrow> nat \<Rightarrow> app_state \<Rightarrow> bool" where
  "scheduled_from fadd k s \<longleftrightarrow>
     k \<le> length (started s) \<and> non_overlapping fadd (drop k (started s)) \<and>
     list_all (\<lambda>x. fadd (start_when x) (buffer_duration x) \<le> nextStartTimeRef s)
       (drop k (started s))"

text \<open>
  While every queued callback is due at \<open>D\<close> or later and the clock is before \<open>D\<close>, a
  flag that is set stays set, unless \<^verbatim>\<open>stopAll\<close> runs.
\<close>

definition alert_holds :: "nat \<Rightarrow> app_state \<Rightarrow> bool" where
  "alert_holds D s \<longleftrightarrow>
     safetyAlert s \<and> list_all (\<lambda>d. D \<le> d) (timeouts s) \<and> D \<le> nowMs s + 3000"

text \<open>The output transcription of the message is there and has no text.\<close>

definition output_textless :: "message \<Rightarrow> bool" where
  "output_textless m =
     (case msg_outputTranscription m of None \<Rightarrow> False | Some tr \<Rightarrow> fragment_text tr = None)"

text \<open>
  A fragment contains a keyword as a case-insensitive substring: one of its contiguous
  runs is a keyword of the list up to the case of its letters. This is the property in
  the words of the specification; \<open>mentions_danger\<close> is what the handler computes.
\<close>

definition contains_keyword :: "jsstring \<Rightarrow> bool" where
  "contains_keyword t =
     list_ex (\<lambda>k. list_ex (\<lambda>u. toLowerCase u = toLowerCase k) (sublists t)) dangerKeywords"

section \<open>Sample messages\<close>

definition no_content :: server_content where
  "no_content =
     \<lparr>inputTranscription = None, outputTranscription = None, turnComplete = False,
      modelTurn = None, interrupted = False\<rparr>"

definition audio_message :: "jsstring \<Rightarrow> message" where
  "audio_message d =
     \<lparr>serverContent = Some (no_content\<lparr>modelTurn :=
        Some \<lparr>parts = Some [\<lparr>inlineData = Some \<lparr>data = Some d\<rparr>\<rparr>]\<rparr>\<rparr>)\<rparr>"

definition output_message :: "jsstring \<Rightarrow> message" where
  "output_message t =
     \<lparr>serverContent = Some (no_content\<lparr>outputTranscription :=
        Some \<lparr>fragment_text = Some t\<rparr>\<rparr>)\<rparr>"

definition input_message :: "jsstring \<Rightarrow> message" where
  "input_message t =
     \<lparr>serverContent = Some (no_content\<lparr>inputTranscription :=
        Some \<lparr>fragment_text = Some t\<rparr>\<rparr>)\<rparr>"

definition turn_message :: "jsstring \<Rightarrow> jsstring \<Rightarrow> message" where
  "turn_message i out =
     \<lparr>serverContent = Some (no_content\<lparr>inputTranscription := Some \<lparr>fragment_text = Some i\<rparr>,
        outputTranscription := Some \<lparr>fragment_text = Some out\<rparr>, turnComplete := True\<rparr>)\<rparr>"

definition interrupt_message :: message where
  "interrupt_message = \<lparr>serverContent = Some (no_content\<lparr>interrupted := True\<rparr>)\<rparr>"

definition bare_turn_message :: message where
  "bare_turn_message = \<lparr>serverContent = Some (no_content\<lparr>turnComplete := True\<rparr>)\<rparr>"

text \<open>
  Messages whose output transcription has no text: one that completes a turn, one that
  interrupts, one that carries audio.
\<close>

definition textless_turn_message :: message where
  "textless_turn_message =
     \<lparr>serverContent = Some (no_content\<lparr>outputTranscription := Some \<lparr>fragment_text = None\<rparr>,
        turnComplete := True\<rparr>)\<rparr>"

definition textless_interrupt_message :: message where
  "textless_interrupt_message =
     \<lparr>serverContent = Some (no_content\<lparr>outputTranscription := Some \<lparr>fragment_text = None\<rparr>,
        interrupted := True\<rparr>)\<rparr>"

definition textless_audio_message :: "jsstring \<Rightarrow> message" where
  "textless_audio_message d =
     \<lparr>serverContent = Some (no_content\<lparr>outputTranscription := Some \<lparr>fragment_text = None\<rparr>,
        modelTurn := Some \<lparr>parts = Some [\<lparr>inlineData = Some \<lparr>data = Some d\<rparr>\<rparr>]\<rparr>\<rparr>)\<rparr>"

text \<open>A message that carries audio and the interruption marker.\<close>

definition audio_interrupt_message :: "jsstring \<Rightarrow> message" where
  "audio_interrupt_message d =
     \<lparr>serverContent = Some (no_content\<lparr>modelTurn :=
        Some \<lparr>parts = Some [\<lparr>inlineData = Some \<lparr>data = Some d\<rparr>\<rparr>]\<rparr>, interrupted := True\<rparr>)\<rparr>"

text \<open>A turn whose input is one letter and whose output is that letter in lower case.\<close>

definition lettered_turn :: "16 word \<Rightarrow> event" where
  "lettered_turn c = OnMessage 0 (turn_message [c] [c + 0x20])"

definition five_turns :: "event list" where
  "five_turns = map lettered_turn [0x41, 0x42, 0x43, 0x44, 0x45]"

text \<open>
  A decoder for the samples: one second of audio for each unit of payload. On the whole
  numbers of seconds of the samples the addition of doubles is exact, and is \<open>(+)\<close>.
\<close>

definition sample_dur :: "jsstring \<Rightarrow> rat" where
  "sample_dur d = of_nat (length d)"

section \<open>Unfolding\<close>

lemmas stop_defs = stopAll_def stop_sources_def drop_session_def clear_frame_interval_def Let_def

lemmas message_defs = onmessage_def state_after_def onmessage_interrupted_def
  onmessage_audio_def onmessage_turn_def onmessage_output_def onmessage_input_def js_string_def
  raise_alert_def stop_sources_def Let_def

lemmas other_defs = onopen_def onerror_def onclose_def startSession_begin_def
  startSession_resolved_def startSession_catch_def source_ended_def elapse_def

lemmas msg_defs = msg_inputTranscription_def msg_outputTranscription_def msg_turnComplete_def
  msg_interrupted_def msg_audioData_def first_part_def output_textless_def

lemmas sample_defs = no_content_def audio_message_def output_message_def input_message_def
  turn_message_def interrupt_message_def bare_turn_message_def textless_turn_message_def
  textless_interrupt_message_def textless_audio_message_def audio_interrupt_message_def
  sample_dur_def lettered_turn_def five_turns_def

lemmas string_defs = mentions_danger_def dangerKeywords_def str_includes_def toLowerCase_def
  lower_unit_def ascii_def sublist_code prefix_code

section \<open>When the handler throws\<close>

lemma onmessage_returns: "\<not> output_textless m \<Longrightarrow> \<exists>s'. onmessage fadd dur t m s = Inr s'"
  by (auto simp: message_defs msg_defs split: option.splits)

lemma onmessage_throws:
  "output_textless m \<Longrightarrow>
   \<exists>s'. onmessage fadd dur t m s = Inl (TypeError, s') \<and>
     transcriptions s' = transcriptions s \<and>
     currentOutputTransRef s' = currentOutputTransRef s @ ascii ''undefined'' \<and>
     sourcesRef s' = sourcesRef s \<and> stopped s' = stopped s \<and>
     started s' = started s \<and> nextStartTimeRef s' = nextStartTimeRef s \<and>
     safetyAlert s' = safetyAlert s \<and> timeouts s' = timeouts s"
  by (auto simp: message_defs msg_defs split: option.splits)

section \<open>The transcript history\<close>

lemma slice_last_length: "length (slice_last n xs) \<le> n"
  by (simp add: slice_last_def)

lemma slice_last_pair: "slice_last 10 (xs @ [a, b]) = slice_last 8 xs @ [a, b]"
  by (simp add: slice_last_def)

lemma slice_last_evicts: "\<exists>old. xs = old @ slice_last n xs \<and> length old = length xs - n"
  by (rule exI [of _ "take (length xs - n) xs"]) (simp add: slice_last_def)

lemma onmessage_history_bound:
  "length (transcriptions s) \<le> 10 \<Longrightarrow>
   length (transcriptions (state_after (onmessage fadd dur t m s))) \<le> 10"
  by (simp add: message_defs slice_last_length split: option.splits)

lemma step_history_bound:
  "length (transcriptions s) \<le> 10 \<Longrightarrow> length (transcriptions (step fadd dur e s)) \<le> 10"
  by (cases e) (simp_all add: onmessage_history_bound stop_defs other_defs split: option.splits)

lemma run_history_bound:
  "length (transcriptions s) \<le> 10 \<Longrightarrow> length (transcriptions (run fadd dur es s)) \<le> 10"
  by (induction es arbitrary: s) (simp_all add: step_history_bound)

lemma onmessage_turn_history:
  "msg_turnComplete m \<Longrightarrow> \<not> output_textless m \<Longrightarrow>
   transcriptions (state_after (onmessage fadd dur t m s)) =
     slice_last 10 (transcriptions s @
       [\<lparr>role = user,
         text_of = currentInputTransRef s @
           (case msg_inputTranscription m of
              None \<Rightarrow> [] | Some tr \<Rightarrow> js_string (fragment_text tr))\<rparr>,
        \<lparr>role = assistant,
         text_of = currentOutputTransRef s @
           (case msg_outputTranscription m of
              None \<Rightarrow> [] | Some tr \<Rightarrow> js_string (fragment_text tr))\<rparr>])"
  by (auto simp: message_defs msg_defs split: option.splits)

lemma onmessage_turn_resets:
  "msg_turnComplete m \<Longrightarrow> \<not> output_textless m \<Longrightarrow>
   currentInputTransRef (state_after (onmessage fadd dur t m s)) = [] \<and>
   currentOutputTransRef (state_after (onmessage fadd dur t m s)) = []"
  by (auto simp: message_defs msg_defs split: option.splits)

lemma onmessage_textless_history:
  "output_textless m \<Longrightarrow>
   transcriptions (state_after (onmessage fadd dur t m s)) = transcriptions s"
  using onmessage_throws [of m fadd dur t s] by (auto simp: state_after_def)

text \<open>
  C1. Whatever the events of a run are, the history never holds more than ten entries.
  When a message with the turn-complete marker is handled in any state, either its
  output transcription has no text, the handler throws and the history is as it was, or
  the history and the new pair, put end to end, are the new history preceded by the
  entries that were let go: these are the oldest ones, and there are as many of them as
  the append went over ten.
\<close>

theorem history_capped_fifo:
  "length (transcriptions (run fadd dur es initial_state)) \<le> 10 \<and>
   (msg_turnComplete m \<longrightarrow>
     (if output_textless m
      then transcriptions (state_after (onmessage fadd dur t m s)) = transcriptions s
      else (\<exists>old. transcriptions s @
        [\<lparr>role = user,
          text_of = currentInputTransRef s @
            (case msg_inputTranscription m of
               None \<Rightarrow> [] | Some tr \<Rightarrow> js_string (fragment_text tr))\<rparr>,
         \<lparr>role = assistant,
          text_of = currentOutputTransRef s @
            (case msg_outputTranscription m of
               None \<Rightarrow> [] | Some tr \<Rightarrow> js_string (fragment_text tr))\<rparr>]
        = old @ transcriptions (state_after (onmessage fadd dur t m s)) \<and>
        length old = length (transcriptions s) + 2 - 10)))"
proof -
  have bound: "length (transcriptions (run fadd dur es initial_state)) \<le> 10"
    by (rule run_history_bound) (simp add: initial_state_def)
  show ?thesis
    using bound slice_last_evicts [of "transcriptions s @ [_, _]" 10]
    by (auto simp: onmessage_turn_history onmessage_textless_history)
qed

theorem history_capped_fifo_witness:
  "msg_turnComplete (turn_message [0x46] [0x66]) \<and>
   \<not> output_textless (turn_message [0x46] [0x66]) \<and>
   length (transcriptions (run (+) sample_dur five_turns initial_state)) \<le> 10 \<and>
   (\<exists>old. transcriptions (run (+) sample_dur five_turns initial_state) @
      [\<lparr>role = user, text_of = [0x46]\<rparr>, \<lparr>role = assistant, text_of = [0x66]\<rparr>]
      = old @ transcriptions (state_after (onmessage (+) sample_dur 0 (turn_message [0x46] [0x66])
                                (run (+) sample_dur five_turns initial_state))) \<and>
      length old = 2) \<and>
   map text_of (transcriptions (run (+) sample_dur five_turns initial_state)) =
     [[0x41], [0x61], [0x42], [0x62], [0x43], [0x63], [0x44], [0x64], [0x45], [0x65]] \<and>
   map text_of (transcriptions (state_after (onmessage (+) sample_dur 0 (turn_message [0x46] [0x66])
                                  (run (+) sample_dur five_turns initial_state)))) =
     [[0x42], [0x62], [0x43], [0x63], [0x44], [0x64], [0x45], [0x65], [0x46], [0x66]]"
proof -
  let ?S = "run (+) sample_dur five_turns initial_state"
  let ?M = "turn_message [0x46] [0x66]"
  have h: "msg_turnComplete ?M"
    by (simp add: msg_defs sample_defs)
  have g: "\<not> output_textless ?M"
    by (simp add: msg_defs sample_defs)
  have before: "map text_of (transcriptions ?S) =
      [[0x41], [0x61], [0x42], [0x62], [0x43], [0x63], [0x44], [0x64], [0x45], [0x65]]"
    by (simp add: message_defs msg_defs sample_defs initial_state_def slice_last_def string_defs)
  have after: "map text_of (transcriptions (state_after (onmessage (+) sample_dur 0 ?M ?S))) =
      [[0x42], [0x62], [0x43], [0x63], [0x44], [0x64], [0x45], [0x65], [0x46], [0x66]]"
    by (simp add: message_defs msg_defs sample_defs initial_state_def slice_last_def string_defs)
  have acc: "currentInputTransRef ?S = []" "currentOutputTransRef ?S = []"
    by (simp_all add: message_defs msg_defs sample_defs initial_state_def string_defs)
  have frag: "(case msg_inputTranscription ?M of
                 None \<Rightarrow> [] | Some tr \<Rightarrow> js_string (fragment_text tr)) = [0x46]"
    "(case msg_outputTranscription ?M of
        None \<Rightarrow> [] | Some tr \<Rightarrow> js_string (fragment_text tr)) = [0x66]"
    by (simp_all add: msg_defs sample_defs js_string_def)
  have "length (map text_of (transcriptions ?S)) = 10"
    by (simp only: before) simp
  then have over: "length (transcriptions ?S) + 2 - 10 = 2"
    by simp
  have "length (transcriptions ?S) \<le> 10 \<and>
        (\<exists>old. transcriptions ?S @
           [\<lparr>role = user, text_of = [] @ [0x46]\<rparr>, \<lparr>role = assistant, text_of = [] @ [0x66]\<rparr>]
           = old @ transcriptions (state_after (onmessage (+) sample_dur 0 ?M ?S)) \<and>
           length old = 2)"
    using h g history_capped_fifo [where fadd = "(+)" and dur = sample_dur and es = five_turns
        and m = ?M and t = 0 and s = ?S]
    by (simp only: acc frag over if_False)
  then show ?thesis
    using h g before after by (simp only: append_Nil simp_thms)
qed

text \<open>
  What the turn block does when the handler reaches it: the history ends with the new
  pair, in front of it are the last eight entries of the old history, and both
  accumulators are empty afterwards.
\<close>

lemma turn_block_commits_pair:
  assumes "msg_turnComplete m" "\<not> output_textless m"
  shows "transcriptions (state_after (onmessage fadd dur t m s)) =
           slice_last 8 (transcriptions s) @
           [\<lparr>role = user,
             text_of = currentInputTransRef s @
               (case msg_inputTranscription m of
                  None \<Rightarrow> [] | Some tr \<Rightarrow> js_string (fragment_text tr))\<rparr>,
            \<lparr>role = assistant,
             text_of = currentOutputTransRef s @
               (case msg_outputTranscription m of
                  None \<Rightarrow> [] | Some tr \<Rightarrow> js_string (fragment_text tr))\<rparr>] \<and>
         currentInputTransRef (state_after (onmessage fadd dur t m s)) = [] \<and>
         currentOutputTransRef (state_after (onmessage fadd dur t m s)) = []"
  using assms by (simp add: onmessage_turn_history onmessage_turn_resets slice_last_pair)

text \<open>
  C2. The message below carries the turn-complete marker and an output transcription
  without text. The user has said ``hi''. The handler throws at
  \<^verbatim>\<open>text.toLowerCase()\<close>, before the turn block: no entry is appended, the input
  accumulator still holds ``hi'' and the output accumulator holds ``undefined''.
\<close>

theorem turn_lost_on_textless_output:
  "msg_turnComplete textless_turn_message \<and>
   isl (onmessage (+) sample_dur 0 textless_turn_message
          (run (+) sample_dur [OnMessage 0 (input_message (ascii ''hi''))] initial_state)) \<and>
   transcriptions (state_after (onmessage (+) sample_dur 0 textless_turn_message
          (run (+) sample_dur [OnMessage 0 (input_message (ascii ''hi''))] initial_state))) = [] \<and>
   currentInputTransRef (state_after (onmessage (+) sample_dur 0 textless_turn_message
          (run (+) sample_dur [OnMessage 0 (input_message (ascii ''hi''))] initial_state)))
     = ascii ''hi'' \<and>
   currentOutputTransRef (state_after (onmessage (+) sample_dur 0 textless_turn_message
          (run (+) sample_dur [OnMessage 0 (input_message (ascii ''hi''))] initial_state)))
     = ascii ''undefined''"
  by (simp add: message_defs msg_defs sample_defs initial_state_def ascii_def)

section \<open>Playback\<close>

lemma non_overlapping_snoc:
  "non_overlapping fadd xs \<Longrightarrow>
   list_all (\<lambda>x. fadd (start_when x) (buffer_duration x) \<le> start_when n) xs \<Longrightarrow>
   non_overlapping fadd (xs @ [n])"
  by (induction fadd xs rule: non_overlapping.induct) auto

lemma onmessage_started:
  "\<not> output_textless m \<Longrightarrow>
   started (state_after (onmessage fadd dur t m s)) = started s @
     (case msg_audioData m of
        None \<Rightarrow> []
      | Some d \<Rightarrow>
          if d = [] then []
          else [\<lparr>node_id = nodeSeq s, start_when = max (nextStartTimeRef s) t,
                 buffer_duration = dur d\<rparr>])"
  by (auto simp: message_defs output_textless_def split: option.splits)

lemma onmessage_cursor:
  "\<not> output_textless m \<Longrightarrow> \<not> msg_interrupted m \<Longrightarrow>
   nextStartTimeRef (state_after (onmessage fadd dur t m s)) =
     (case msg_audioData m of
        None \<Rightarrow> nextStartTimeRef s
      | Some d \<Rightarrow>
          if d = [] then nextStartTimeRef s else fadd (max (nextStartTimeRef s) t) (dur d))"
  by (auto simp: message_defs output_textless_def split: option.splits)

lemma onmessage_textless_audio:
  "output_textless m \<Longrightarrow>
   started (state_after (onmessage fadd dur t m s)) = started s \<and>
   nextStartTimeRef (state_after (onmessage fadd dur t m s)) = nextStartTimeRef s \<and>
   sourcesRef (state_after (onmessage fadd dur t m s)) = sourcesRef s \<and>
   stopped (state_after (onmessage fadd dur t m s)) = stopped s"
  using onmessage_throws [of m fadd dur t s] by (auto simp: state_after_def)

lemma other_steps_audio:
  "\<forall>t m. e \<noteq> OnMessage t m \<Longrightarrow>
   started (step fadd dur e s) = started s \<and>
   nextStartTimeRef (step fadd dur e s) = nextStartTimeRef s"
  by (cases e) (simp_all add: stop_defs other_defs split: option.splits)

lemma scheduled_from_chunk:
  assumes "scheduled_from fadd k s" "beg \<le> fadd beg len" "nextStartTimeRef s \<le> beg"
  shows "scheduled_from fadd k
           (s\<lparr>started := started s @ [\<lparr>node_id = i, start_when = beg, buffer_duration = len\<rparr>],
              nextStartTimeRef := fadd beg len\<rparr>)"
proof -
  let ?n = "\<lparr>node_id = i, start_when = beg, buffer_duration = len\<rparr>"
  have k: "k \<le> length (started s)"
    using assms(1) by (simp add: scheduled_from_def)
  have ends: "\<forall>x \<in> set (drop k (started s)).
      fadd (start_when x) (buffer_duration x) \<le> beg"
    using assms(1,3) by (fastforce simp: scheduled_from_def list_all_iff)
  have "non_overlapping fadd (drop k (started s) @ [?n])"
    using assms(1) ends
    by (intro non_overlapping_snoc) (simp_all add: scheduled_from_def list_all_iff)
  moreover have "\<forall>x \<in> set (drop k (started s) @ [?n]).
      fadd (start_when x) (buffer_duration x) \<le> fadd beg len"
    using ends assms(2) by fastforce
  ultimately show ?thesis
    using k by (simp add: scheduled_from_def list_all_iff)
qed

lemma scheduled_from_eq:
  "scheduled_from fadd k s \<Longrightarrow> started s' = started s \<Longrightarrow>
   nextStartTimeRef s' = nextStartTimeRef s \<Longrightarrow> scheduled_from fadd k s'"
  by (simp add: scheduled_from_def)

lemma step_scheduled_from:
  assumes "fadd_grows fadd" "\<forall>d. 0 \<le> dur d" "uninterrupted e" "scheduled_from fadd k s"
  shows "scheduled_from fadd k (step fadd dur e s) \<and>
         nextStartTimeRef s \<le> nextStartTimeRef (step fadd dur e s)"
proof (cases "\<exists>t m. e = OnMessage t m")
  case False
  then show ?thesis
    using assms(4) other_steps_audio [of e fadd dur s] by (simp add: scheduled_from_eq)
next
  case True
  then obtain t m where e: "e = OnMessage t m"
    by blast
  with assms(3) have ni: "\<not> msg_interrupted m"
    by simp
  let ?s' = "state_after (onmessage fadd dur t m s)"
  show ?thesis
  proof (cases "\<not> output_textless m \<and> (\<exists>d. msg_audioData m = Some d \<and> d \<noteq> [])")
    case False
    have "started ?s' = started s \<and> nextStartTimeRef ?s' = nextStartTimeRef s"
    proof (cases "output_textless m")
      case True
      then show ?thesis
        by (simp add: onmessage_textless_audio)
    next
      case nt: False
      with False ni show ?thesis
        by (auto simp: onmessage_started onmessage_cursor split: option.splits)
    qed
    then show ?thesis
      using assms(4) e by (simp add: scheduled_from_eq)
  next
    case True
    then obtain d where nt: "\<not> output_textless m" and d: "msg_audioData m = Some d" "d \<noteq> []"
      by blast
    let ?beg = "max (nextStartTimeRef s) t"
    have grow: "?beg \<le> fadd ?beg (dur d)"
      using assms(1,2) unfolding fadd_grows_def by blast
    have st: "started ?s' =
        started s @ [\<lparr>node_id = nodeSeq s, start_when = ?beg, buffer_duration = dur d\<rparr>]"
      and cu: "nextStartTimeRef ?s' = fadd ?beg (dur d)"
      using d ni nt by (simp_all add: onmessage_started onmessage_cursor)
    have "scheduled_from fadd k
        (s\<lparr>started := started s @
              [\<lparr>node_id = nodeSeq s, start_when = ?beg, buffer_duration = dur d\<rparr>],
           nextStartTimeRef := fadd ?beg (dur d)\<rparr>)"
      using assms(4) grow by (intro scheduled_from_chunk) simp_all
    then have "scheduled_from fadd k ?s'"
      using st cu by (simp add: scheduled_from_def)
    moreover have "nextStartTimeRef s \<le> fadd ?beg (dur d)"
      using grow by simp
    ultimately show ?thesis
      using e cu by simp
  qed
qed

lemma run_scheduled_from:
  "fadd_grows fadd \<Longrightarrow> \<forall>d. 0 \<le> dur d \<Longrightarrow> list_all uninterrupted es \<Longrightarrow>
   scheduled_from fadd k s \<Longrightarrow>
   scheduled_from fadd k (run fadd dur es s) \<and>
   nextStartTimeRef s \<le> nextStartTimeRef (run fadd dur es s)"
proof (induction es arbitrary: s)
  case Nil
  then show ?case by simp
next
  case (Cons e es)
  from Cons.prems have st:
    "scheduled_from fadd k (step fadd dur e s) \<and>
     nextStartTimeRef s \<le> nextStartTimeRef (step fadd dur e s)"
    by (intro step_scheduled_from) simp_all
  from Cons.prems st have "scheduled_from fadd k (run fadd dur es (step fadd dur e s)) \<and>
      nextStartTimeRef (step fadd dur e s) \<le>
        nextStartTimeRef (run fadd dur es (step fadd dur e s))"
    by (intro Cons.IH) simp_all
  with st show ?case by simp
qed

lemma scheduled_from_here: "scheduled_from fadd (length (started s)) s"
  by (simp add: scheduled_from_def)

text \<open>
  C3, as the code has it. A message with a non-empty audio payload, handled without a
  throw, starts exactly one node, at the later of the cursor and the reading of the
  output clock; unless the same message carries the interruption marker, the cursor is
  afterwards the sum, as doubles, of that start time and the duration of the chunk. So a
  chunk starts at the prior cursor when the clock has not passed it, and later
  otherwise. Over any run without an interruption marker, with durations that are not
  negative, the cursor never decreases and every chunk started during the run begins no
  earlier than the cursor the chunk before it left, which is its computed end: the
  chunks play without overlap, in the order of their arrival.
\<close>

theorem chunk_scheduling:
  "(msg_audioData m = Some d \<and> d \<noteq> [] \<and> \<not> output_textless m \<longrightarrow>
      started (state_after (onmessage fadd dur t m s)) =
        started s @ [\<lparr>node_id = nodeSeq s, start_when = max (nextStartTimeRef s) t,
                      buffer_duration = dur d\<rparr>] \<and>
      (\<not> msg_interrupted m \<longrightarrow>
         nextStartTimeRef (state_after (onmessage fadd dur t m s)) =
           fadd (max (nextStartTimeRef s) t) (dur d))) \<and>
   (fadd_grows fadd \<and> (\<forall>x. 0 \<le> dur x) \<and> list_all uninterrupted es \<longrightarrow>
      nextStartTimeRef s \<le> nextStartTimeRef (run fadd dur es s) \<and>
      non_overlapping fadd (drop (length (started s)) (started (run fadd dur es s))))"
proof -
  have "scheduled_from fadd (length (started s)) (run fadd dur es s) \<and>
        nextStartTimeRef s \<le> nextStartTimeRef (run fadd dur es s)"
    if "fadd_grows fadd" "\<forall>x. 0 \<le> dur x" "list_all uninterrupted es"
    using that scheduled_from_here by (intro run_scheduled_from) simp_all
  then show ?thesis
    by (auto simp: onmessage_started onmessage_cursor scheduled_from_def)
qed

theorem chunk_scheduling_witness:
  "msg_audioData (audio_message (ascii ''b'')) = Some (ascii ''b'') \<and> ascii ''b'' \<noteq> [] \<and>
   \<not> output_textless (audio_message (ascii ''b'')) \<and>
   \<not> msg_interrupted (audio_message (ascii ''b'')) \<and>
   fadd_grows (+) \<and> (\<forall>x. 0 \<le> sample_dur x) \<and>
   list_all uninterrupted
     [OnMessage 0 (audio_message (ascii ''a'')), OnMessage 5 (audio_message (ascii ''b''))] \<and>
   started (state_after (onmessage (+) sample_dur 5 (audio_message (ascii ''b'')) initial_state)) =
     [\<lparr>node_id = 0, start_when = 5, buffer_duration = 1\<rparr>] \<and>
   nextStartTimeRef
     (state_after (onmessage (+) sample_dur 5 (audio_message (ascii ''b'')) initial_state)) = 6 \<and>
   nextStartTimeRef initial_state \<le>
     nextStartTimeRef (run (+) sample_dur
       [OnMessage 0 (audio_message (ascii ''a'')), OnMessage 5 (audio_message (ascii ''b''))]
       initial_state) \<and>
   non_overlapping (+) (drop (length (started initial_state)) (started (run (+) sample_dur
       [OnMessage 0 (audio_message (ascii ''a'')), OnMessage 5 (audio_message (ascii ''b''))]
       initial_state)))"
  using chunk_scheduling [where fadd = "(+)" and dur = sample_dur
      and m = "audio_message (ascii ''b'')"
      and d = "ascii ''b''" and t = 5 and s = initial_state
      and es = "[OnMessage 0 (audio_message (ascii ''a'')),
                 OnMessage 5 (audio_message (ascii ''b''))]"]
  by (simp add: msg_defs sample_defs initial_state_def ascii_def fadd_grows_def)

text \<open>
  C3, as it is written, fails in three ways. It has every chunk start at the prior
  cursor value: the first chunk below is one second long and arrives at clock 0, which
  leaves the cursor at 1; the second arrives at clock 5 and starts there. It has the
  cursor at the start time plus the duration after every chunk: a chunk of one second
  that arrives at clock 5 in a message that also carries the interruption marker leaves
  the cursor at 0, not at 6; and in a message whose output transcription has no text the
  handler throws before the audio block, and the cursor stays where it was.
\<close>

theorem chunk_start_after_gap:
  "start_when (last (started (run (+) sample_dur
      [OnMessage 0 (audio_message (ascii ''a'')), OnMessage 5 (audio_message (ascii ''b''))]
      initial_state))) \<noteq>
   nextStartTimeRef (run (+) sample_dur [OnMessage 0 (audio_message (ascii ''a''))] initial_state) \<and>
   nextStartTimeRef (state_after
      (onmessage (+) sample_dur 5 (audio_interrupt_message (ascii ''b'')) initial_state)) \<noteq>
   max (nextStartTimeRef initial_state) 5 + sample_dur (ascii ''b'') \<and>
   nextStartTimeRef (state_after
      (onmessage (+) sample_dur 5 (textless_audio_message (ascii ''b'')) initial_state)) \<noteq>
   max (nextStartTimeRef initial_state) 5 + sample_dur (ascii ''b'')"
  by (simp add: message_defs msg_defs sample_defs initial_state_def ascii_def)

text \<open>
  What the interruption block does when the handler reaches it: the set of active
  sources is empty and the cursor is zero afterwards, and \<^verbatim>\<open>stop\<close> has been called on
  every source that was in the set, in the order of the set, and then on the node this
  message itself started, if it carried audio.
\<close>

lemma interruption_block_stops_playback:
  assumes "msg_interrupted m" "\<not> output_textless m"
  shows "sourcesRef (state_after (onmessage fadd dur t m s)) = [] \<and>
         nextStartTimeRef (state_after (onmessage fadd dur t m s)) = 0 \<and>
         stopped (state_after (onmessage fadd dur t m s)) =
           stopped s @ map node_id (sourcesRef s) @
           map node_id (drop (length (started s))
             (started (state_after (onmessage fadd dur t m s))))"
  using assms by (auto simp: message_defs output_textless_def split: option.splits)

text \<open>
  C4. Two chunks are playing. The message below carries the interruption marker and an
  output transcription without text: the handler throws at \<^verbatim>\<open>text.toLowerCase()\<close>,
  before the interruption block. Both sources are still in the set, \<^verbatim>\<open>stop\<close> was
  called on neither, and the cursor is still at 6.
\<close>

theorem interruption_lost_on_textless_output:
  "msg_interrupted textless_interrupt_message \<and>
   isl (onmessage (+) sample_dur 6 textless_interrupt_message (run (+) sample_dur
     [OnMessage 0 (audio_message (ascii ''a'')), OnMessage 5 (audio_message (ascii ''b''))]
     initial_state)) \<and>
   map node_id (sourcesRef (state_after
     (onmessage (+) sample_dur 6 textless_interrupt_message (run (+) sample_dur
       [OnMessage 0 (audio_message (ascii ''a'')), OnMessage 5 (audio_message (ascii ''b''))]
       initial_state)))) = [0, 1] \<and>
   stopped (state_after
     (onmessage (+) sample_dur 6 textless_interrupt_message (run (+) sample_dur
       [OnMessage 0 (audio_message (ascii ''a'')), OnMessage 5 (audio_message (ascii ''b''))]
       initial_state))) = [] \<and>
   nextStartTimeRef (state_after
     (onmessage (+) sample_dur 6 textless_interrupt_message (run (+) sample_dur
       [OnMessage 0 (audio_message (ascii ''a'')), OnMessage 5 (audio_message (ascii ''b''))]
       initial_state))) = 6"
  by (simp add: message_defs msg_defs sample_defs initial_state_def ascii_def)

section \<open>The safety alert\<close>

lemma keywords_lower_case: "k \<in> set dangerKeywords \<Longrightarrow> toLowerCase k = k"
  by (auto simp: dangerKeywords_def toLowerCase_def lower_unit_def ascii_def)

lemma sublist_toLowerCase:
  "sublist k (toLowerCase t) \<longleftrightarrow> (\<exists>u. sublist u t \<and> toLowerCase u = k)"
proof
  assume "sublist k (toLowerCase t)"
  then have "sublist k (map lower_unit t)"
    by (simp add: toLowerCase_def)
  then obtain u where "sublist u t" "k = map lower_unit u"
    using sublist_map_rightE by blast
  then show "\<exists>u. sublist u t \<and> toLowerCase u = k"
    by (auto simp: toLowerCase_def)
next
  assume "\<exists>u. sublist u t \<and> toLowerCase u = k"
  then obtain u where u: "sublist u t" "map lower_unit u = k"
    by (auto simp: toLowerCase_def)
  from u(1) have "sublist (map lower_unit u) (map lower_unit t)"
    by (rule map_mono_sublist)
  with u(2) show "sublist k (toLowerCase t)"
    by (simp add: toLowerCase_def)
qed

text \<open>What the handler computes is the property in the words of the specification.\<close>

lemma mentions_danger_iff: "mentions_danger t \<longleftrightarrow> contains_keyword t"
proof -
  have "(\<exists>u. sublist u t \<and> toLowerCase u = k) \<longleftrightarrow>
        (\<exists>u \<in> set (sublists t). toLowerCase u = toLowerCase k)"
    if "k \<in> set dangerKeywords" for k
    using keywords_lower_case [OF that] by auto
  then show ?thesis
    by (simp add: mentions_danger_def contains_keyword_def list_ex_iff str_includes_def
        sublist_toLowerCase)
qed

lemma onmessage_now: "nowMs (state_after (onmessage fadd dur t m s)) = nowMs s"
  by (auto simp: message_defs split: option.splits)

lemma onmessage_timeouts:
  "timeouts (state_after (onmessage fadd dur t m s)) = timeouts s \<or>
   timeouts (state_after (onmessage fadd dur t m s)) = timeouts s @ [nowMs s + 3000]"
  by (auto simp: message_defs split: option.splits)

lemma onmessage_alert_kept:
  "safetyAlert s \<Longrightarrow> safetyAlert (state_after (onmessage fadd dur t m s))"
  by (auto simp: message_defs split: option.splits)

lemma elapsed_Cons: "elapsed (e # es) = elapsed [e] + elapsed es"
  by (cases e) simp_all

lemma step_now: "nowMs (step fadd dur e s) = nowMs s + elapsed [e]"
  by (cases e) (simp_all add: onmessage_now stop_defs other_defs split: option.splits)

lemma step_keeps_timeout:
  "D \<in> set (timeouts s) \<Longrightarrow> nowMs s + elapsed [e] < D \<Longrightarrow>
   D \<in> set (timeouts (step fadd dur e s))"
proof (cases e)
  case (OnMessage t m)
  assume "D \<in> set (timeouts s)"
  then show ?thesis
    using OnMessage onmessage_timeouts [of fadd dur t m s] by auto
qed (simp_all add: stop_defs other_defs split: option.splits)

lemma run_keeps_timeout:
  "D \<in> set (timeouts s) \<Longrightarrow> nowMs s + elapsed es < D \<Longrightarrow>
   D \<in> set (timeouts (run fadd dur es s)) \<and>
   nowMs (run fadd dur es s) = nowMs s + elapsed es"
proof (induction es arbitrary: s)
  case Nil
  then show ?case by simp
next
  case (Cons e es)
  have el: "elapsed (e # es) = elapsed [e] + elapsed es"
    by (rule elapsed_Cons)
  have "D \<in> set (timeouts (step fadd dur e s))"
    using Cons.prems el by (intro step_keeps_timeout) simp_all
  moreover have "nowMs (step fadd dur e s) + elapsed es < D"
    using Cons.prems el by (simp add: step_now)
  ultimately have "D \<in> set (timeouts (run fadd dur es (step fadd dur e s))) \<and>
      nowMs (run fadd dur es (step fadd dur e s)) = nowMs (step fadd dur e s) + elapsed es"
    by (rule Cons.IH)
  then show ?case
    using el by (simp add: step_now)
qed

lemma elapse_fires:
  "D \<in> set (timeouts s) \<Longrightarrow> D \<le> nowMs s + dt \<Longrightarrow> \<not> safetyAlert (elapse dt s)"
  by (auto simp: elapse_def Let_def list_ex_iff)

lemma step_keeps_alert:
  assumes "alert_holds D s" "no_stop e" "nowMs s + elapsed [e] < D"
  shows "alert_holds D (step fadd dur e s)"
proof (cases e)
  case (OnMessage t m)
  then show ?thesis
    using assms(1) onmessage_timeouts [of fadd dur t m s]
    by (auto simp: alert_holds_def onmessage_now onmessage_alert_kept)
next
  case (Elapse dt)
  then show ?thesis
    using assms(1,3) by (auto simp: alert_holds_def elapse_def Let_def list_all_iff list_ex_iff)
qed (use assms(1,2) in \<open>simp_all add: alert_holds_def other_defs\<close>)

lemma run_keeps_alert:
  "alert_holds D s \<Longrightarrow> list_all no_stop es \<Longrightarrow> nowMs s + elapsed es < D \<Longrightarrow>
   alert_holds D (run fadd dur es s)"
proof (induction es arbitrary: s)
  case Nil
  then show ?case by simp
next
  case (Cons e es)
  have el: "elapsed (e # es) = elapsed [e] + elapsed es"
    by (rule elapsed_Cons)
  have "alert_holds D (step fadd dur e s)"
    using Cons.prems el by (intro step_keeps_alert) simp_all
  moreover have "nowMs (step fadd dur e s) + elapsed es < D"
    using Cons.prems el by (simp add: step_now)
  ultimately show ?case
    using Cons.prems(2) by (simp add: Cons.IH)
qed

lemma match_raises:
  "msg_outputTranscription m = Some \<lparr>fragment_text = Some txt\<rparr> \<Longrightarrow> mentions_danger txt \<Longrightarrow>
   safetyAlert (state_after (onmessage fadd dur t m s)) \<and>
   nowMs (state_after (onmessage fadd dur t m s)) = nowMs s \<and>
   timeouts (state_after (onmessage fadd dur t m s)) = timeouts s @ [nowMs s + 3000]"
  by (auto simp: message_defs split: option.splits)

text \<open>
  C5. When the assistant fragment of a message contains a keyword of the list as a
  case-insensitive substring, the flag is set as soon as the message is handled. Let any
  events follow, further matches among them, that take less than 3000 ms in all. The
  flag is clear right after the step of time that brings the clock to 3000 ms after the
  match, or past it. And it is not clear sooner on its own: when no callback queued
  before the match was due earlier and none of the events runs \<^verbatim>\<open>stopAll\<close>, the flag
  is still set after those events.
\<close>

theorem alert_raised_then_cleared:
  assumes "msg_outputTranscription m = Some \<lparr>fragment_text = Some txt\<rparr>" "contains_keyword txt"
  shows "safetyAlert (state_after (onmessage fadd dur t m s)) \<and>
         (elapsed es < 3000 \<and> 3000 \<le> elapsed es + dt \<longrightarrow>
            \<not> safetyAlert (elapse dt (run fadd dur es (state_after (onmessage fadd dur t m s))))) \<and>
         (list_all (\<lambda>d. nowMs s + 3000 \<le> d) (timeouts s) \<and> list_all no_stop es \<and>
          elapsed es < 3000 \<longrightarrow>
            safetyAlert (run fadd dur es (state_after (onmessage fadd dur t m s))))"
proof -
  let ?s1 = "state_after (onmessage fadd dur t m s)"
  have md: "mentions_danger txt"
    using assms(2) by (simp add: mentions_danger_iff)
  have m: "safetyAlert ?s1" "nowMs ?s1 = nowMs s"
    "timeouts ?s1 = timeouts s @ [nowMs s + 3000]"
    using match_raises [OF assms(1) md] by simp_all
  have "\<not> safetyAlert (elapse dt (run fadd dur es ?s1))"
    if "elapsed es < 3000" "3000 \<le> elapsed es + dt"
  proof -
    have "nowMs s + 3000 \<in> set (timeouts (run fadd dur es ?s1)) \<and>
          nowMs (run fadd dur es ?s1) = nowMs ?s1 + elapsed es"
      using m that by (intro run_keeps_timeout) simp_all
    then show ?thesis
      using that m(2) by (intro elapse_fires [of "nowMs s + 3000"]) simp_all
  qed
  moreover have "safetyAlert (run fadd dur es ?s1)"
    if "list_all (\<lambda>d. nowMs s + 3000 \<le> d) (timeouts s)" "list_all no_stop es"
      "elapsed es < 3000"
  proof -
    have "alert_holds (nowMs s + 3000) ?s1"
      using m that(1) by (simp add: alert_holds_def)
    then have "alert_holds (nowMs s + 3000) (run fadd dur es ?s1)"
      using that m(2) by (intro run_keeps_alert) simp_all
    then show ?thesis
      by (simp add: alert_holds_def)
  qed
  ultimately show ?thesis
    using m(1) by blast
qed

theorem alert_raised_then_cleared_witness:
  "msg_outputTranscription (output_message (ascii ''Please STOP'')) =
     Some \<lparr>fragment_text = Some (ascii ''Please STOP'')\<rparr> \<and>
   contains_keyword (ascii ''Please STOP'') \<and>
   elapsed [Elapse 1000, OnMessage 0 (output_message (ascii ''danger'')), Elapse 1999] < 3000 \<and>
   3000 \<le> elapsed [Elapse 1000, OnMessage 0 (output_message (ascii ''danger'')), Elapse 1999] + 1 \<and>
   list_all (\<lambda>d. nowMs initial_state + 3000 \<le> d) (timeouts initial_state) \<and>
   list_all no_stop [Elapse 1000, OnMessage 0 (output_message (ascii ''danger'')), Elapse 1999] \<and>
   safetyAlert (state_after
     (onmessage (+) sample_dur 0 (output_message (ascii ''Please STOP'')) initial_state)) \<and>
   safetyAlert (run (+) sample_dur
       [Elapse 1000, OnMessage 0 (output_message (ascii ''danger'')), Elapse 1999]
       (state_after
         (onmessage (+) sample_dur 0 (output_message (ascii ''Please STOP'')) initial_state))) \<and>
   \<not> safetyAlert (elapse 1 (run (+) sample_dur
       [Elapse 1000, OnMessage 0 (output_message (ascii ''danger'')), Elapse 1999]
       (state_after
         (onmessage (+) sample_dur 0 (output_message (ascii ''Please STOP'')) initial_state))))"
proof -
  have "mentions_danger (ascii ''Please STOP'')"
    by (simp add: string_defs)
  then have k: "contains_keyword (ascii ''Please STOP'')"
    by (simp add: mentions_danger_iff)
  have o: "msg_outputTranscription (output_message (ascii ''Please STOP'')) =
      Some \<lparr>fragment_text = Some (ascii ''Please STOP'')\<rparr>"
    by (simp add: msg_defs sample_defs)
  have q: "list_all (\<lambda>d. nowMs initial_state + 3000 \<le> d) (timeouts initial_state)"
    by (simp add: initial_state_def)
  show ?thesis
    using k o q alert_raised_then_cleared [OF o k, where fadd = "(+)" and dur = sample_dur
        and t = 0 and s = initial_state and dt = 1
        and es = "[Elapse 1000, OnMessage 0 (output_message (ascii ''danger'')), Elapse 1999]"]
    by simp
qed

text \<open>
  C10. The scan reads the fragment, not the accumulated transcript. After the fragment
  ``dan'' the flag is clear; after the fragment ``ger'' it is still clear and no
  callback is queued, although the accumulated output is then ``danger'', which contains
  a keyword.
\<close>

theorem split_keyword_not_detected:
  "\<not> safetyAlert (run fadd dur [OnMessage t1 (output_message (ascii ''dan''))] initial_state) \<and>
   \<not> safetyAlert (run fadd dur [OnMessage t1 (output_message (ascii ''dan'')),
                            OnMessage t2 (output_message (ascii ''ger''))] initial_state) \<and>
   timeouts (run fadd dur [OnMessage t1 (output_message (ascii ''dan'')),
                      OnMessage t2 (output_message (ascii ''ger''))] initial_state) = [] \<and>
   currentOutputTransRef (run fadd dur [OnMessage t1 (output_message (ascii ''dan'')),
                      OnMessage t2 (output_message (ascii ''ger''))] initial_state)
     = ascii ''danger'' \<and>
   mentions_danger (ascii ''danger'')"
  by (simp add: message_defs msg_defs sample_defs initial_state_def string_defs)

section \<open>Stopping and failing\<close>

lemma stopAll_twice: "stopAll (stopAll s) = stopAll s"
  by (simp add: stop_defs split: option.splits)

lemma onmessage_status_handle:
  "status (state_after (onmessage fadd dur t m s)) = status s \<and>
   frameIntervalRef (state_after (onmessage fadd dur t m s)) = frameIntervalRef s"
  by (auto simp: message_defs split: option.splits)

lemma step_handle:
  "frameIntervalRef s \<noteq> Some 0 \<Longrightarrow> frameIntervalRef (step fadd dur e s) \<noteq> Some 0"
  by (cases e)
     (simp_all add: onmessage_status_handle stop_defs other_defs split: option.splits)

lemma run_handle:
  "frameIntervalRef s \<noteq> Some 0 \<Longrightarrow> frameIntervalRef (run fadd dur es s) \<noteq> Some 0"
  by (induction es arbitrary: s) (simp_all add: step_handle)

text \<open>
  The browser gives out timer handles greater than zero, so the ref never holds the
  handle 0 in a run of the component.
\<close>

lemma reachable_handle: "frameIntervalRef (run fadd dur es initial_state) \<noteq> Some 0"
  by (rule run_handle) (simp add: initial_state_def)

text \<open>
  C6. \<^verbatim>\<open>stopAll\<close> leaves the status idle, the alert flag clear and the set of active
  sources empty, having called \<^verbatim>\<open>stop\<close> on each of them; when the ref holds null or a
  handle the browser gave out, the ref is null afterwards and the timer of that handle
  no longer runs. The close callback is \<^verbatim>\<open>stopAll\<close>, the error callback is \<^verbatim>\<open>stopAll\<close>
  after the error message is set, and \<^verbatim>\<open>stopAll\<close> twice is \<^verbatim>\<open>stopAll\<close> once.
\<close>

theorem stopAll_teardown:
  "status (stopAll s) = IDLE \<and> safetyAlert (stopAll s) = False \<and>
   sourcesRef (stopAll s) = [] \<and>
   stopped (stopAll s) = stopped s @ map node_id (sourcesRef s) \<and>
   (frameIntervalRef s \<noteq> Some 0 \<longrightarrow>
      frameIntervalRef (stopAll s) = None \<and>
      (\<forall>h. frameIntervalRef s = Some h \<longrightarrow> h \<notin> intervals (stopAll s))) \<and>
   onclose s = stopAll s \<and>
   onerror s = stopAll (s\<lparr>error := Some (ascii ''Connection error. Please try again.'')\<rparr>) \<and>
   stopAll (stopAll s) = stopAll s"
  by (simp add: stopAll_twice onclose_def onerror_def) (simp add: stop_defs split: option.splits)

theorem stopAll_teardown_witness:
  "frameIntervalRef (onopen initial_state) \<noteq> Some 0 \<and>
   frameIntervalRef (onopen initial_state) = Some 1 \<and>
   1 \<in> intervals (onopen initial_state) \<and>
   frameIntervalRef (stopAll (onopen initial_state)) = None \<and>
   1 \<notin> intervals (stopAll (onopen initial_state))"
  using stopAll_teardown [of "onopen initial_state"]
  by (simp add: onopen_def initial_state_def)


text \<open>
  C8. \<^verbatim>\<open>stopAll\<close>, and the close and error callbacks with it, leave the transcript
  history and the scheduling cursor as they were, in every state.
\<close>

theorem stopAll_keeps_history_and_cursor:
  "transcriptions (stopAll s) = transcriptions s \<and>
   nextStartTimeRef (stopAll s) = nextStartTimeRef s \<and>
   transcriptions (onclose s) = transcriptions s \<and>
   nextStartTimeRef (onclose s) = nextStartTimeRef s \<and>
   transcriptions (onerror s) = transcriptions s \<and>
   nextStartTimeRef (onerror s) = nextStartTimeRef s"
  by (simp add: stop_defs onclose_def onerror_def split: option.splits)

lemma step_status: "status s \<noteq> ERROR \<Longrightarrow> status (step fadd dur e s) \<noteq> ERROR"
  by (cases e)
     (simp_all add: onmessage_status_handle stop_defs other_defs split: option.splits)

lemma run_status: "status s \<noteq> ERROR \<Longrightarrow> status (run fadd dur es s) \<noteq> ERROR"
  by (induction es arbitrary: s) (simp_all add: step_status)

text \<open>
  C9. After any run of events from the initial state the status is idle, connecting or
  active: no handler assigns the value ERROR.
\<close>

theorem status_never_error:
  "status (run fadd dur es initial_state) \<in> {IDLE, CONNECTING, ACTIVE}"
proof -
  have "status initial_state \<noteq> ERROR"
    by (simp add: initial_state_def)
  then have "status (run fadd dur es initial_state) \<noteq> ERROR"
    by (rule run_status)
  then show ?thesis
    by (cases "status (run fadd dur es initial_state)") simp_all
qed

end
